theory Spec2Isabelle
  imports Main
begin

section \<open>The controllerx inventory plugin: data model\<close>

text \<open>
  Embedding of \<^verbatim>\<open>InventoryModule.parse\<close> of
  \<^verbatim>\<open>inventory_plugins/controllerx.py\<close>. Values decoded from JSON are kept as a
  small datatype; Python dictionaries are association lists in iteration order (a
  dictionary has distinct keys, which the theorems that need it assume).
\<close>

datatype json =
  JNull | JBool bool | JInt int | JStr string | JList "json list"
  | JDict "(string \<times> json) list"

text \<open>
  A compiled regular expression is used through \<^verbatim>\<open>search\<close> only, and only for
  the truth value of its result: it is the predicate "search finds a match".
\<close>

type_synonym pattern = "string \<Rightarrow> bool"

text \<open>
  One value of the raw inventory document: a JSON object read with
  \<^verbatim>\<open>.get('hosts', [])\<close>, \<^verbatim>\<open>.get('children', [])\<close>,
  \<^verbatim>\<open>.get('vars', {})\<close> for a group and with \<^verbatim>\<open>['hostvars']\<close> for the
  \<^verbatim>\<open>_meta\<close> entry. A key that is absent is \<open>None\<close>.
\<close>

record group_content =
  hosts :: "string list option"
  children :: "string list option"
  vars :: "(string \<times> json) list option"
  hostvars :: "(string \<times> (string \<times> json) list) list option"

type_synonym raw_inventory = "(string \<times> group_content) list"

datatype error =
  AnsibleOptionsError | AnsibleParserError | RegexError | KeyError | IndexError
  | AttributeError

text \<open>\<^verbatim>\<open>d.get(key, default)\<close> on an optional field.\<close>

definition get_default :: "'a option \<Rightarrow> 'a \<Rightarrow> 'a" where
  "get_default field dflt = (case field of None \<Rightarrow> dflt | Some v \<Rightarrow> v)"

subsection \<open>The inventory object\<close>

text \<open>
  Modelled from the spec: the inventory object \<^verbatim>\<open>self.inventory\<close> is handed to
  \<^verbatim>\<open>parse\<close> by the caller and its class is not part of the repository. Following
  section 3 of the specification it holds groups, hosts, group-to-host membership edges,
  group-to-group child edges and variables. The plugin addresses it by name only
  (\<^verbatim>\<open>set_variable\<close> receives the name of a host or of a group, not the host or
  the group), so variables are kept per entity name: what a name holds is what was set
  under that name. \<^verbatim>\<open>add_host\<close> registers the host and, when a group is given,
  the membership edge. The object is a parameter of every function below; what it held
  before the run stays.

  The model holds what the plugin asks the object to hold. An object may record more of
  its own accord under the name of a host it creates (where the host came from, say);
  such entries are not part of the model, and the statement on the independence of group
  variables from the host filters is therefore made for names that no
  \<^verbatim>\<open>hosts\<close> list carries: no host of such a name is ever added or given a
  variable.
\<close>

record inventory_data =
  inv_groups :: "string set"
  inv_hosts :: "string set"
  inv_members :: "(string \<times> string) set"
  inv_children :: "(string \<times> string) set"
  inv_vars :: "string \<Rightarrow> string \<Rightarrow> json option"

definition empty_inventory :: inventory_data where
  "empty_inventory =
     \<lparr>inv_groups = {}, inv_hosts = {}, inv_members = {}, inv_children = {},
      inv_vars = (\<lambda>entity varname. None)\<rparr>"

definition add_group :: "string \<Rightarrow> inventory_data \<Rightarrow> inventory_data" where
  "add_group group_name sinv = sinv\<lparr>inv_groups := insert group_name (inv_groups sinv)\<rparr>"

definition add_host :: "string \<Rightarrow> string option \<Rightarrow> inventory_data \<Rightarrow> inventory_data" where
  "add_host host group_name sinv =
     (let sinv' = sinv\<lparr>inv_hosts := insert host (inv_hosts sinv)\<rparr>
      in case group_name of
           None \<Rightarrow> sinv'
         | Some g \<Rightarrow> sinv'\<lparr>inv_members := insert (g, host) (inv_members sinv')\<rparr>)"

definition add_child :: "string \<Rightarrow> string \<Rightarrow> inventory_data \<Rightarrow> inventory_data" where
  "add_child group_name child sinv =
     sinv\<lparr>inv_children := insert (group_name, child) (inv_children sinv)\<rparr>"

definition set_variable :: "string \<Rightarrow> string \<Rightarrow> json \<Rightarrow> inventory_data \<Rightarrow> inventory_data" where
  "set_variable entity varname val sinv =
     sinv\<lparr>inv_vars := (inv_vars sinv)(entity := (inv_vars sinv entity)(varname \<mapsto> val))\<rparr>"

section \<open>Graph construction (lines 248 to 293)\<close>

subsection \<open>Phase 1: create the groups, identify allowed hosts and groups\<close>

text \<open>The inner loop of line 262: keep the host names the hosts pattern finds.\<close>

primrec filter_hosts :: "pattern \<Rightarrow> string list \<Rightarrow> string set \<Rightarrow> string set" where
  "filter_hosts hosts_pattern [] allowed_hosts = allowed_hosts"
| "filter_hosts hosts_pattern (host_name # rest) allowed_hosts =
     filter_hosts hosts_pattern rest
       (if hosts_pattern host_name then insert host_name allowed_hosts else allowed_hosts)"

text \<open>
  The loop of line 252 over the items of the document; the state is
  \<open>(allowed_hosts, allowed_groups, inventory)\<close>.
\<close>

fun phase1 ::
  "pattern option \<Rightarrow> pattern option \<Rightarrow> pattern option \<Rightarrow> raw_inventory \<Rightarrow>
   string set \<times> string set \<times> inventory_data \<Rightarrow> string set \<times> string set \<times> inventory_data"
where
  "phase1 groups_pattern hostgroups_pattern hosts_pattern [] st = st"
| "phase1 groups_pattern hostgroups_pattern hosts_pattern
     ((group_name, group_content) # rest) (allowed_hosts, allowed_groups, sinv) =
     (if (case groups_pattern of None \<Rightarrow> False | Some p \<Rightarrow> \<not> p group_name)
         \<and> group_name \<noteq> ''all''
      then phase1 groups_pattern hostgroups_pattern hosts_pattern rest
             (allowed_hosts, allowed_groups, sinv)
      else if group_name \<noteq> ''_meta'' then
        phase1 groups_pattern hostgroups_pattern hosts_pattern rest
          (if (case hostgroups_pattern of None \<Rightarrow> True | Some p \<Rightarrow> p group_name)
           then (case hosts_pattern of
                   None \<Rightarrow> allowed_hosts \<union> set (get_default (hosts group_content) [])
                 | Some p \<Rightarrow> filter_hosts p (get_default (hosts group_content) []) allowed_hosts)
           else allowed_hosts,
           insert group_name allowed_groups,
           add_group group_name sinv)
      else phase1 groups_pattern hostgroups_pattern hosts_pattern rest
             (allowed_hosts, allowed_groups, sinv))"

subsection \<open>Phase 2: create the hosts and set the host variables\<close>

text \<open>The loops \<^verbatim>\<open>for var_name, var_value in six.iteritems(...)\<close> of lines 272 and 292.\<close>

fun set_variables :: "string \<Rightarrow> (string \<times> json) list \<Rightarrow> inventory_data \<Rightarrow> inventory_data" where
  "set_variables entity [] sinv = sinv"
| "set_variables entity ((var_name, var_value) # rest) sinv =
     set_variables entity rest (set_variable entity var_name var_value sinv)"

fun phase2 ::
  "string set \<Rightarrow> (string \<times> (string \<times> json) list) list \<Rightarrow> inventory_data \<Rightarrow> inventory_data"
where
  "phase2 allowed_hosts [] sinv = sinv"
| "phase2 allowed_hosts ((host_name, host_vars) # rest) sinv =
     (if host_name \<notin> allowed_hosts then phase2 allowed_hosts rest sinv
      else phase2 allowed_hosts rest
             (set_variables host_name host_vars (add_host host_name None sinv)))"

subsection \<open>Phase 3: memberships, child groups and group variables\<close>

primrec link_hosts :: "string set \<Rightarrow> string \<Rightarrow> string list \<Rightarrow> inventory_data \<Rightarrow> inventory_data" where
  "link_hosts allowed_hosts group_name [] sinv = sinv"
| "link_hosts allowed_hosts group_name (host_name # rest) sinv =
     (if host_name \<notin> allowed_hosts then link_hosts allowed_hosts group_name rest sinv
      else link_hosts allowed_hosts group_name rest (add_host host_name (Some group_name) sinv))"

primrec link_children :: "string set \<Rightarrow> string \<Rightarrow> string list \<Rightarrow> inventory_data \<Rightarrow> inventory_data" where
  "link_children allowed_groups group_name [] sinv = sinv"
| "link_children allowed_groups group_name (child_group_name # rest) sinv =
     (if child_group_name \<notin> allowed_groups
      then link_children allowed_groups group_name rest sinv
      else link_children allowed_groups group_name rest
             (add_child group_name child_group_name sinv))"

fun phase3 ::
  "string set \<Rightarrow> string set \<Rightarrow> raw_inventory \<Rightarrow> inventory_data \<Rightarrow> inventory_data"
where
  "phase3 allowed_hosts allowed_groups [] sinv = sinv"
| "phase3 allowed_hosts allowed_groups ((group_name, group_content) # rest) sinv =
     (if group_name \<notin> allowed_groups then phase3 allowed_hosts allowed_groups rest sinv
      else
        let sinv1 =
              (if group_name \<noteq> ''all'' \<and> group_name \<noteq> ''_meta''
               then link_children allowed_groups group_name
                      (get_default (children group_content) [])
                      (link_hosts allowed_hosts group_name
                         (get_default (hosts group_content) []) sinv)
               else sinv);
            sinv2 =
              (if group_name \<noteq> ''_meta''
               then set_variables group_name (get_default (vars group_content) []) sinv1
               else sinv1)
        in phase3 allowed_hosts allowed_groups rest sinv2)"

subsection \<open>The three phases in sequence\<close>

text \<open>
  \<^verbatim>\<open>inventory['_meta']['hostvars']\<close> (line 267) raises \<^verbatim>\<open>KeyError\<close> when
  either key is missing; phase 1 has run by then, the run is lost all the same.
\<close>

definition allowed_hosts_of ::
  "pattern option \<Rightarrow> pattern option \<Rightarrow> pattern option \<Rightarrow> raw_inventory \<Rightarrow> string set" where
  "allowed_hosts_of groups_pattern hostgroups_pattern hosts_pattern inventory =
     fst (phase1 groups_pattern hostgroups_pattern hosts_pattern inventory
            ({}, {}, empty_inventory))"

definition allowed_groups_of ::
  "pattern option \<Rightarrow> pattern option \<Rightarrow> pattern option \<Rightarrow> raw_inventory \<Rightarrow> string set" where
  "allowed_groups_of groups_pattern hostgroups_pattern hosts_pattern inventory =
     fst (snd (phase1 groups_pattern hostgroups_pattern hosts_pattern inventory
                 ({}, {}, empty_inventory)))"

definition build ::
  "pattern option \<Rightarrow> pattern option \<Rightarrow> pattern option \<Rightarrow> raw_inventory \<Rightarrow>
   inventory_data \<Rightarrow> error + inventory_data" where
  "build groups_pattern hostgroups_pattern hosts_pattern inventory sinv =
     (case phase1 groups_pattern hostgroups_pattern hosts_pattern inventory ({}, {}, sinv) of
        (allowed_hosts, allowed_groups, sinv1) \<Rightarrow>
          (case map_of inventory ''_meta'' of
             None \<Rightarrow> Inl KeyError
           | Some meta \<Rightarrow>
               (case hostvars meta of
                  None \<Rightarrow> Inl KeyError
                | Some all_hosts \<Rightarrow>
                    Inr (phase3 allowed_hosts allowed_groups inventory
                           (phase2 allowed_hosts all_hosts sinv1)))))"

section \<open>The run: requests, options, metadata (lines 164 to 306)\<close>

subsection \<open>Requests\<close>

text \<open>
  What \<^verbatim>\<open>request_handler.get(url)\<close> followed by \<^verbatim>\<open>json.loads\<close> can give:
  a connection failure, a body that is not JSON, or the decoded document.
  \<^verbatim>\<open>make_request\<close> turns both failures into \<^verbatim>\<open>AnsibleParserError\<close>. The list of
  URLs requested so far is threaded through, so that the order of the network requests is
  part of the result.
\<close>

datatype 'a http_result = ConnectionFailed | NotJson | Body 'a

definition make_request ::
  "(string \<Rightarrow> 'a http_result) \<Rightarrow> string \<Rightarrow> string list \<Rightarrow> (error + 'a) \<times> string list" where
  "make_request request_handler controller_url requested =
     (case request_handler controller_url of
        ConnectionFailed \<Rightarrow> (Inl AnsibleParserError, requested @ [controller_url])
      | NotJson \<Rightarrow> (Inl AnsibleParserError, requested @ [controller_url])
      | Body document \<Rightarrow> (Inr document, requested @ [controller_url]))"

text \<open>
  The answer to the query by name, \<^verbatim>\<open>{results: [{id: ...}, ...]}\<close>, read as
  \<^verbatim>\<open>inventory_data['results'][0]['id']\<close>.
\<close>

record result_row =
  row_id :: "int option"

record inventory_list =
  results :: "result_row list option"

text \<open>
  The surroundings of the plugin that are not its own code: the regular expression
  compiler (\<open>None\<close> when \<^verbatim>\<open>re.compile\<close> raises \<^verbatim>\<open>re.error\<close>), the standard
  library's \<^verbatim>\<open>urljoin\<close>, and the controller behind the three URLs, each answer at
  the type section 6 of the specification gives it.
\<close>

record environment =
  re_compile :: "string \<Rightarrow> pattern option"
  urljoin :: "string \<Rightarrow> string \<Rightarrow> string"
  inventories_endpoint :: "string \<Rightarrow> inventory_list http_result"
  script_endpoint :: "string \<Rightarrow> raw_inventory http_result"
  config_endpoint :: "string \<Rightarrow> (string \<times> json) list http_result"

subsection \<open>Options\<close>

text \<open>
  \<^verbatim>\<open>inventory_name\<close> is either a \<^verbatim>\<open>str\<close> or something else, for which
  \<^verbatim>\<open>ensure_type(inventory_name, 'str')\<close> gives a string or raises
  \<^verbatim>\<open>ValueError\<close> (\<open>None\<close>). The credentials and \<^verbatim>\<open>validate_certs\<close> only
  parametrise the request handler.
\<close>

datatype option_value = StrValue string | OtherValue "string option"

record options =
  host :: string
  inventory_name :: option_value
  hosts_filter :: "string option"
  hostgroups_filter :: "string option"
  groups_filter :: "string option"
  include_metadata :: bool

subsection \<open>Strings\<close>

text \<open>\<^verbatim>\<open>str\<close> of an integer, \<^verbatim>\<open>s.replace(' ', '%20')\<close> and \<^verbatim>\<open>s.replace('/', '')\<close>.\<close>

fun str_nat :: "nat \<Rightarrow> string" where
  "str_nat n =
     (if n < 10 then [char_of (48 + n)]
      else str_nat (n div 10) @ [char_of (48 + n mod 10)])"

declare str_nat.simps [simp del]

definition str_int :: "int \<Rightarrow> string" where
  "str_int i = (if i < 0 then CHR ''-'' # str_nat (nat (- i)) else str_nat (nat i))"

definition replace_spaces :: "string \<Rightarrow> string" where
  "replace_spaces s = concat (map (\<lambda>c. if c = CHR '' '' then ''%20'' else [c]) s)"

definition remove_slashes :: "string \<Rightarrow> string" where
  "remove_slashes s = filter (\<lambda>c. c \<noteq> CHR ''/'') s"

text \<open>\<^verbatim>\<open>re.match('(?:http|https)://', controller_host)\<close>: one of two literal prefixes.\<close>

definition has_scheme :: "string \<Rightarrow> bool" where
  "has_scheme controller_host =
     (take 7 controller_host = ''http://'' \<or> take 8 controller_host = ''https://'')"

subsection \<open>Lines 198 to 229: the inventory id from the inventory name\<close>

definition inventory_name_url :: "environment \<Rightarrow> string \<Rightarrow> string \<Rightarrow> string" where
  "inventory_name_url env controller_host name =
     urljoin env controller_host (''/api/v2/inventories/?name='' @ replace_spaces name)"

definition inventory_url :: "environment \<Rightarrow> string \<Rightarrow> string \<Rightarrow> string" where
  "inventory_url env controller_host inventory_id =
     urljoin env controller_host
       (''/api/v2/inventories/'' @ inventory_id @
        ''/script/?hostvars=1&controllervars=1&all=1'')"

definition config_url :: "environment \<Rightarrow> string \<Rightarrow> string" where
  "config_url env controller_host = urljoin env controller_host ''/api/v2/config/''"

definition normalise_host :: "string \<Rightarrow> string" where
  "normalise_host controller_host =
     (if \<not> has_scheme controller_host then ''https://'' @ controller_host
      else controller_host)"

definition checked_inventory_name :: "option_value \<Rightarrow> error + string" where
  "checked_inventory_name v =
     (case v of
        StrValue s \<Rightarrow> Inr s
      | OtherValue None \<Rightarrow> Inl AnsibleOptionsError
      | OtherValue (Some s) \<Rightarrow> Inr s)"

definition first_id :: "inventory_list \<Rightarrow> error + string" where
  "first_id inventory_data =
     (case results inventory_data of
        None \<Rightarrow> Inl KeyError
      | Some [] \<Rightarrow> Inl IndexError
      | Some (row # _) \<Rightarrow>
          (case row_id row of
             None \<Rightarrow> Inl KeyError
           | Some i \<Rightarrow> Inr (remove_slashes (str_int i))))"

subsection \<open>Lines 231 to 246: the filters\<close>

text \<open>\<^verbatim>\<open>if hosts_filter:\<close> is false for \<^verbatim>\<open>None\<close> and for the empty string.\<close>

definition compile_filter :: "environment \<Rightarrow> string option \<Rightarrow> error + pattern option" where
  "compile_filter env filter_option =
     (case filter_option of
        None \<Rightarrow> Inr None
      | Some s \<Rightarrow>
          (if s = [] then Inr None
           else (case re_compile env s of
                   None \<Rightarrow> Inl RegexError
                 | Some p \<Rightarrow> Inr (Some p))))"

subsection \<open>Lines 295 to 303: the metadata\<close>

definition dict_get :: "(string \<times> json) list \<Rightarrow> string \<Rightarrow> json \<Rightarrow> json" where
  "dict_get d key dflt = (case map_of d key of None \<Rightarrow> dflt | Some v \<Rightarrow> v)"

text \<open>
  \<^verbatim>\<open>config_data.get('license_info', {}).get('license_type', 'unknown')\<close>: the second
  \<^verbatim>\<open>get\<close> raises \<^verbatim>\<open>AttributeError\<close> when \<^verbatim>\<open>license_info\<close> is not an object.
\<close>

definition server_data :: "(string \<times> json) list \<Rightarrow> error + json" where
  "server_data config_data =
     (case dict_get config_data ''license_info'' (JDict []) of
        JDict license_info \<Rightarrow>
          Inr (JDict
            [(''license_type'', dict_get license_info ''license_type'' (JStr ''unknown'')),
             (''version'', dict_get config_data ''version'' (JStr ''unknown'')),
             (''ansible_version'', dict_get config_data ''ansible_version'' (JStr ''unknown''))])
      | _ \<Rightarrow> Inl AttributeError)"

definition fetch_metadata ::
  "environment \<Rightarrow> string \<Rightarrow> inventory_data \<Rightarrow> string list \<Rightarrow>
   (error + inventory_data) \<times> string list" where
  "fetch_metadata env controller_host sinv requested =
     (case make_request (config_endpoint env) (config_url env controller_host) requested of
        (Inl e, requested') \<Rightarrow> (Inl e, requested')
      | (Inr config_data, requested') \<Rightarrow>
          (case server_data config_data of
             Inl e \<Rightarrow> (Inl e, requested')
           | Inr sd \<Rightarrow> (Inr (set_variable ''all'' ''controller_metadata'' sd sinv), requested')))"

subsection \<open>\<^verbatim>\<open>parse\<close>\<close>

text \<open>
  The statements of \<^verbatim>\<open>parse\<close> from line 248 on, given the inventory id's URL and the
  compiled patterns. The result is the inventory handed to
  \<^verbatim>\<open>reconcile_inventory\<close> (line 306), which belongs to the inventory object.
\<close>

definition fetch_and_build ::
  "environment \<Rightarrow> options \<Rightarrow> string \<Rightarrow> string \<Rightarrow>
   pattern option \<Rightarrow> pattern option \<Rightarrow> pattern option \<Rightarrow>
   inventory_data \<Rightarrow> string list \<Rightarrow> (error + inventory_data) \<times> string list" where
  "fetch_and_build env opts controller_host inventory_id
     groups_pattern hostgroups_pattern hosts_pattern sinv requested =
     (case make_request (script_endpoint env)
             (inventory_url env controller_host inventory_id) requested of
        (Inl e, requested') \<Rightarrow> (Inl e, requested')
      | (Inr inventory, requested') \<Rightarrow>
          (case build groups_pattern hostgroups_pattern hosts_pattern inventory sinv of
             Inl e \<Rightarrow> (Inl e, requested')
           | Inr sinv' \<Rightarrow>
               (if include_metadata opts
                then fetch_metadata env controller_host sinv' requested'
                else (Inr sinv', requested'))))"

definition parse ::
  "environment \<Rightarrow> options \<Rightarrow> inventory_data \<Rightarrow> (error + inventory_data) \<times> string list" where
  "parse env opts sinv =
     (let controller_host = normalise_host (host opts) in
      case checked_inventory_name (inventory_name opts) of
        Inl e \<Rightarrow> (Inl e, [])
      | Inr name \<Rightarrow>
          (case make_request (inventories_endpoint env)
                  (inventory_name_url env controller_host name) [] of
             (Inl e, requested) \<Rightarrow> (Inl e, requested)
           | (Inr inventory_data, requested) \<Rightarrow>
               (case first_id inventory_data of
                  Inl e \<Rightarrow> (Inl e, requested)
                | Inr inventory_id \<Rightarrow>
                    (case compile_filter env (hosts_filter opts) of
                       Inl e \<Rightarrow> (Inl e, requested)
                     | Inr hosts_pattern \<Rightarrow>
                         (case compile_filter env (hostgroups_filter opts) of
                            Inl e \<Rightarrow> (Inl e, requested)
                          | Inr hostgroups_pattern \<Rightarrow>
                              (case compile_filter env (groups_filter opts) of
                                 Inl e \<Rightarrow> (Inl e, requested)
                               | Inr groups_pattern \<Rightarrow>
                                   fetch_and_build env opts controller_host inventory_id
                                     groups_pattern hostgroups_pattern hosts_pattern
                                     sinv requested))))))"

section \<open>The specification's words\<close>

text \<open>
  Section 4.1 of the specification: absence of a pattern means "admit all"; a group is
  admitted if no group pattern is set, or the pattern matches the group name, or the group
  name is the reserved root group name. These definitions follow the specification, not
  the code; the theorems below relate them to \<open>phase1\<close>.
\<close>

definition admitHost :: "pattern option \<Rightarrow> string \<Rightarrow> bool" where
  "admitHost hosts_pattern name =
     (case hosts_pattern of None \<Rightarrow> True | Some p \<Rightarrow> p name)"

definition admitHostInGroup :: "pattern option \<Rightarrow> string \<Rightarrow> bool" where
  "admitHostInGroup hostgroups_pattern group_name =
     (case hostgroups_pattern of None \<Rightarrow> True | Some p \<Rightarrow> p group_name)"

definition admitGroup :: "pattern option \<Rightarrow> string \<Rightarrow> bool" where
  "admitGroup groups_pattern group_name =
     ((case groups_pattern of None \<Rightarrow> True | Some p \<Rightarrow> p group_name) \<or> group_name = ''all'')"

text \<open>The top-level keys other than \<^verbatim>\<open>_meta\<close> that the group rule admits.\<close>

definition admitted_groups :: "pattern option \<Rightarrow> raw_inventory \<Rightarrow> string set" where
  "admitted_groups groups_pattern inventory =
     {g \<in> fst ` set inventory. g \<noteq> ''_meta'' \<and> admitGroup groups_pattern g}"

text \<open>
  The host names that pass the host rule and are listed by a group that passes the group
  rule and the hostgroup rule.
\<close>

definition scanned_hosts ::
  "pattern option \<Rightarrow> pattern option \<Rightarrow> pattern option \<Rightarrow> raw_inventory \<Rightarrow> string set" where
  "scanned_hosts groups_pattern hostgroups_pattern hosts_pattern inventory =
     {h. admitHost hosts_pattern h \<and>
         (\<exists>(g, c) \<in> set inventory. g \<noteq> ''_meta'' \<and> admitGroup groups_pattern g \<and>
            admitHostInGroup hostgroups_pattern g \<and> h \<in> set (get_default (hosts c) []))}"

text \<open>The membership edges and the child edges phase 3 is to add.\<close>

definition group_links :: "string set \<Rightarrow> string set \<Rightarrow> raw_inventory \<Rightarrow> (string \<times> string) set" where
  "group_links allowed_hosts allowed_groups inventory =
     {(g, h). \<exists>c. (g, c) \<in> set inventory \<and> g \<in> allowed_groups \<and> g \<noteq> ''all'' \<and>
        g \<noteq> ''_meta'' \<and> h \<in> set (get_default (hosts c) []) \<and> h \<in> allowed_hosts}"

definition child_links :: "string set \<Rightarrow> raw_inventory \<Rightarrow> (string \<times> string) set" where
  "child_links allowed_groups inventory =
     {(g, ch). \<exists>c. (g, c) \<in> set inventory \<and> g \<in> allowed_groups \<and> g \<noteq> ''all'' \<and>
        g \<noteq> ''_meta'' \<and> ch \<in> set (get_default (children c) []) \<and> ch \<in> allowed_groups}"

text \<open>The host names of \<^verbatim>\<open>_meta.hostvars\<close>.\<close>

definition hostvars_keys :: "raw_inventory \<Rightarrow> string set" where
  "hostvars_keys inventory =
     (case map_of inventory ''_meta'' of
        None \<Rightarrow> {}
      | Some meta \<Rightarrow>
          (case hostvars meta of None \<Rightarrow> {} | Some all_hosts \<Rightarrow> fst ` set all_hosts))"

text \<open>The names that occur in the \<^verbatim>\<open>hosts\<close> list of some entry of the document.\<close>

definition listed_hosts :: "raw_inventory \<Rightarrow> string set" where
  "listed_hosts inventory = (\<Union>(g, c) \<in> set inventory. set (get_default (hosts c) []))"

text \<open>
  The rule for the presence of a host as section 8 of the specification words it: in
  \<^verbatim>\<open>_meta.hostvars\<close>, passing the host rule, and listed under at least one group
  that passes the group rule and the hostgroup rule.
\<close>

definition host_rule_as_specified ::
  "pattern option \<Rightarrow> pattern option \<Rightarrow> pattern option \<Rightarrow> raw_inventory \<Rightarrow> string \<Rightarrow> bool" where
  "host_rule_as_specified groups_pattern hostgroups_pattern hosts_pattern inventory h =
     (h \<in> hostvars_keys inventory \<and> admitHost hosts_pattern h \<and>
      (\<exists>(g, c) \<in> set inventory. admitGroup groups_pattern g \<and>
         admitHostInGroup hostgroups_pattern g \<and> h \<in> set (get_default (hosts c) [])))"

text \<open>
  A configured filter is invalid when it is a non-empty string that
  \<^verbatim>\<open>re.compile\<close> rejects.
\<close>

definition invalid_filter :: "environment \<Rightarrow> string option \<Rightarrow> bool" where
  "invalid_filter env filter_option =
     (case filter_option of None \<Rightarrow> False | Some s \<Rightarrow> s \<noteq> [] \<and> re_compile env s = None)"

text \<open>
  Section 4.3 of the specification: the three-key mapping of \<^verbatim>\<open>license_type\<close> (from
  \<^verbatim>\<open>license_info.license_type\<close>), \<^verbatim>\<open>version\<close> and
  \<^verbatim>\<open>ansible_version\<close>, each \<^verbatim>\<open>"unknown"\<close> when absent. (The
  specification does not say what a \<^verbatim>\<open>license_info\<close> that is not an object
  gives; the code fails on it, see \<open>server_data\<close>.)
\<close>

definition metadata_as_specified :: "(string \<times> json) list \<Rightarrow> json" where
  "metadata_as_specified config_data =
     JDict
       [(''license_type'',
           (case map_of config_data ''license_info'' of
              None \<Rightarrow> JStr ''unknown''
            | Some (JDict license_info) \<Rightarrow>
                (case map_of license_info ''license_type'' of
                   None \<Rightarrow> JStr ''unknown'' | Some t \<Rightarrow> t)
            | Some _ \<Rightarrow> JStr ''unknown'')),
        (''version'',
           (case map_of config_data ''version'' of None \<Rightarrow> JStr ''unknown'' | Some x \<Rightarrow> x)),
        (''ansible_version'',
           (case map_of config_data ''ansible_version'' of
              None \<Rightarrow> JStr ''unknown'' | Some x \<Rightarrow> x))]"

text \<open>
  \<^verbatim>\<open>IndexError\<close> and \<^verbatim>\<open>KeyError\<close> are the two subclasses of Python's
  \<^verbatim>\<open>LookupError\<close>.
\<close>

definition is_lookup_error :: "error \<Rightarrow> bool" where
  "is_lookup_error e = (e = IndexError \<or> e = KeyError)"

text \<open>
  What a run adds to an inventory object, laid over what the object held before: sets grow,
  a variable written by the run replaces the earlier value.
\<close>

definition overlay :: "inventory_data \<Rightarrow> inventory_data \<Rightarrow> inventory_data" where
  "overlay d s =
     \<lparr>inv_groups = inv_groups s \<union> inv_groups d,
      inv_hosts = inv_hosts s \<union> inv_hosts d,
      inv_members = inv_members s \<union> inv_members d,
      inv_children = inv_children s \<union> inv_children d,
      inv_vars = (\<lambda>e. inv_vars s e ++ inv_vars d e)\<rparr>"

section \<open>Example documents\<close>

definition group_entry ::
  "string list option \<Rightarrow> string list option \<Rightarrow> (string \<times> json) list option \<Rightarrow> group_content" where
  "group_entry hs cs vs = \<lparr>hosts = hs, children = cs, vars = vs, hostvars = None\<rparr>"

definition meta_entry :: "(string \<times> (string \<times> json) list) list \<Rightarrow> group_content" where
  "meta_entry hv = \<lparr>hosts = None, children = None, vars = None, hostvars = Some hv\<rparr>"

text \<open>
  The document of the scenarios of section 8 of the specification, with a child group
  \<^verbatim>\<open>g2\<close> whose host \<^verbatim>\<open>h3\<close> has no entry in \<^verbatim>\<open>_meta.hostvars\<close>.
\<close>

definition example_inventory :: raw_inventory where
  "example_inventory =
     [(''all'', group_entry (Some [''h1'', ''h2'']) None (Some [])),
      (''g1'', group_entry (Some [''h1'']) (Some [''g2'']) (Some [(''env'', JStr ''prod'')])),
      (''g2'', group_entry (Some [''h3'']) None (Some [(''tier'', JStr ''db'')])),
      (''_meta'', meta_entry [(''h1'', [(''ip'', JStr ''10.0.0.1'')]),
                             (''h2'', [(''ip'', JStr ''10.0.0.2'')])])]"

text \<open>A document in which a host carries the name of its group.\<close>

definition collision_inventory :: raw_inventory where
  "collision_inventory =
     [(''all'', group_entry (Some [''db'']) (Some [''db'']) None),
      (''db'', group_entry (Some [''db'']) None (Some [])),
      (''_meta'', meta_entry [(''db'', [(''role'', JStr ''primary'')])])]"

text \<open>A compiled pattern whose search succeeds on one name only.\<close>

definition only :: "string \<Rightarrow> pattern option" where
  "only name = Some (\<lambda>s. s = name)"

section \<open>An example controller\<close>

text \<open>
  A controller that knows one inventory, \<^verbatim>\<open>prod east\<close> with id 7, and serves the
  example document for it. Of the regular expressions only two are needed: \<^verbatim>\<open>.*\<close>,
  which finds a match in every name, and \<^verbatim>\<open>(\<close>, which does not compile; the example
  compiler rejects every other string as well. \<^verbatim>\<open>urljoin\<close> of a base without a
  path and an absolute path is their concatenation.
\<close>

definition example_environment :: environment where
  "example_environment =
     \<lparr>re_compile = (\<lambda>s. if s = ''.*'' then Some (\<lambda>name. True) else None),
      urljoin = (\<lambda>base path. base @ path),
      inventories_endpoint =
        (\<lambda>url. if url = ''https://controller.example/api/v2/inventories/?name=prod%20east''
               then Body \<lparr>results = Some [\<lparr>row_id = Some 7\<rparr>]\<rparr>
               else Body \<lparr>results = Some []\<rparr>),
      script_endpoint =
        (\<lambda>url. if url = ''https://controller.example/api/v2/inventories/7/script/?hostvars=1&controllervars=1&all=1''
               then Body example_inventory else ConnectionFailed),
      config_endpoint =
        (\<lambda>url. if url = ''https://controller.example/api/v2/config/''
               then Body [(''version'', JStr ''4.5.0''),
                          (''license_info'', JDict [(''license_type'', JStr ''enterprise'')])]
               else ConnectionFailed)\<rparr>"

definition example_options :: options where
  "example_options =
     \<lparr>host = ''controller.example'', inventory_name = StrValue ''prod east'',
      hosts_filter = None, hostgroups_filter = None, groups_filter = None,
      include_metadata = True\<rparr>"

text \<open>The example options with a hosts filter that does not compile, and with a name the
  controller does not know.\<close>

definition bad_filter_options :: options where
  "bad_filter_options = example_options\<lparr>hosts_filter := Some ''(''\<rparr>"

definition unknown_name_options :: options where
  "unknown_name_options = example_options\<lparr>inventory_name := StrValue ''nope''\<rparr>"

section \<open>What the operations and the loops do to each part of the inventory\<close>

lemma add_group_fields [simp]:
  "inv_groups (add_group g s) = insert g (inv_groups s)"
  "inv_hosts (add_group g s) = inv_hosts s"
  "inv_members (add_group g s) = inv_members s"
  "inv_children (add_group g s) = inv_children s"
  "inv_vars (add_group g s) = inv_vars s"
  by (simp_all add: add_group_def)

lemma add_host_fields [simp]:
  "inv_groups (add_host h go s) = inv_groups s"
  "inv_hosts (add_host h go s) = insert h (inv_hosts s)"
  "inv_members (add_host h None s) = inv_members s"
  "inv_members (add_host h (Some g) s) = insert (g, h) (inv_members s)"
  "inv_children (add_host h go s) = inv_children s"
  "inv_vars (add_host h go s) = inv_vars s"
  by (simp_all add: add_host_def Let_def split: option.splits)

lemma add_child_fields [simp]:
  "inv_groups (add_child g c s) = inv_groups s"
  "inv_hosts (add_child g c s) = inv_hosts s"
  "inv_members (add_child g c s) = inv_members s"
  "inv_children (add_child g c s) = insert (g, c) (inv_children s)"
  "inv_vars (add_child g c s) = inv_vars s"
  by (simp_all add: add_child_def)

lemma set_variable_fields [simp]:
  "inv_groups (set_variable e k v s) = inv_groups s"
  "inv_hosts (set_variable e k v s) = inv_hosts s"
  "inv_members (set_variable e k v s) = inv_members s"
  "inv_children (set_variable e k v s) = inv_children s"
  "inv_vars (set_variable e k v s) = (inv_vars s)(e := (inv_vars s e)(k \<mapsto> v))"
  by (simp_all add: set_variable_def)

lemma set_variables_fields [simp]:
  "inv_groups (set_variables e kvs s) = inv_groups s"
  "inv_hosts (set_variables e kvs s) = inv_hosts s"
  "inv_members (set_variables e kvs s) = inv_members s"
  "inv_children (set_variables e kvs s) = inv_children s"
  by (induction e kvs s rule: set_variables.induct; simp)+

lemma set_variables_vars:
  "inv_vars (set_variables e kvs s) = (inv_vars s)(e := inv_vars s e ++ map_of (rev kvs))"
  by (induction e kvs s rule: set_variables.induct) (auto simp: fun_eq_iff map_add_def split: option.splits)

lemma filter_hosts_eq: "filter_hosts p hs ah = ah \<union> {h \<in> set hs. p h}"
  by (induction hs arbitrary: ah) auto

lemma phase1_eq:
  "phase1 gp hgp hp doc (ah, ag, s) =
     (ah \<union> scanned_hosts gp hgp hp doc, ag \<union> admitted_groups gp doc,
      s\<lparr>inv_groups := inv_groups s \<union> admitted_groups gp doc\<rparr>)"
proof (induction doc arbitrary: ah ag s)
  case Nil
  show ?case by (simp add: scanned_hosts_def admitted_groups_def)
next
  case (Cons entry doc)
  obtain g c where entry: "entry = (g, c)" by (cases entry)
  have ag: "admitted_groups gp (entry # doc) =
      (if g \<noteq> ''_meta'' \<and> admitGroup gp g then insert g (admitted_groups gp doc)
       else admitted_groups gp doc)"
    by (auto simp: admitted_groups_def entry)
  have ah: "scanned_hosts gp hgp hp (entry # doc) =
      (if g \<noteq> ''_meta'' \<and> admitGroup gp g \<and> admitHostInGroup hgp g
       then {h \<in> set (get_default (hosts c) []). admitHost hp h} \<union> scanned_hosts gp hgp hp doc
       else scanned_hosts gp hgp hp doc)"
    by (auto simp: scanned_hosts_def entry)
  show ?case
    unfolding entry phase1.simps Cons.IH ag[unfolded entry] ah[unfolded entry]
    by (auto simp: admitGroup_def admitHost_def admitHostInGroup_def filter_hosts_eq add_group_def
             split: option.splits)
qed

lemma link_hosts_fields [simp]:
  "inv_groups (link_hosts ah g hs s) = inv_groups s"
  "inv_hosts (link_hosts ah g hs s) = inv_hosts s \<union> {h \<in> set hs. h \<in> ah}"
  "inv_members (link_hosts ah g hs s) = inv_members s \<union> {(g', h). g' = g \<and> h \<in> set hs \<and> h \<in> ah}"
  "inv_children (link_hosts ah g hs s) = inv_children s"
  "inv_vars (link_hosts ah g hs s) = inv_vars s"
  by (induction hs arbitrary: s; auto)+

lemma link_children_fields [simp]:
  "inv_groups (link_children ag g cs s) = inv_groups s"
  "inv_hosts (link_children ag g cs s) = inv_hosts s"
  "inv_members (link_children ag g cs s) = inv_members s"
  "inv_children (link_children ag g cs s) = inv_children s \<union> {(g', ch). g' = g \<and> ch \<in> set cs \<and> ch \<in> ag}"
  "inv_vars (link_children ag g cs s) = inv_vars s"
  by (induction cs arbitrary: s; auto)+

lemma phase2_fields [simp]:
  "inv_groups (phase2 ah hv s) = inv_groups s"
  "inv_hosts (phase2 ah hv s) = inv_hosts s \<union> {h \<in> fst ` set hv. h \<in> ah}"
  "inv_members (phase2 ah hv s) = inv_members s"
  "inv_children (phase2 ah hv s) = inv_children s"
  by (induction ah hv s rule: phase2.induct; auto)+

lemma phase2_vars_other:
  "e \<notin> fst ` set hv \<or> e \<notin> ah \<Longrightarrow> inv_vars (phase2 ah hv s) e = inv_vars s e"
  by (induction ah hv s rule: phase2.induct) (auto simp: set_variables_vars)

lemma group_links_Nil [simp]: "group_links ah ag [] = {}"
  by (simp add: group_links_def)

lemma group_links_Cons:
  "group_links ah ag ((g, c) # doc) =
     (if g \<in> ag \<and> g \<noteq> ''all'' \<and> g \<noteq> ''_meta''
      then {(g', h). g' = g \<and> h \<in> set (get_default (hosts c) []) \<and> h \<in> ah}
      else {}) \<union> group_links ah ag doc"
  unfolding group_links_def by (rule set_eqI) auto

lemma child_links_Nil [simp]: "child_links ag [] = {}"
  by (simp add: child_links_def)

lemma child_links_Cons:
  "child_links ag ((g, c) # doc) =
     (if g \<in> ag \<and> g \<noteq> ''all'' \<and> g \<noteq> ''_meta''
      then {(g', ch). g' = g \<and> ch \<in> set (get_default (children c) []) \<and> ch \<in> ag}
      else {}) \<union> child_links ag doc"
  unfolding child_links_def by (rule set_eqI) auto

lemma phase3_groups [simp]: "inv_groups (phase3 ah ag doc s) = inv_groups s"
  by (induction ah ag doc s rule: phase3.induct) (simp_all add: Let_def)

lemma phase3_members [simp]:
  "inv_members (phase3 ah ag doc s) = inv_members s \<union> group_links ah ag doc"
  by (induction ah ag doc s rule: phase3.induct) (simp_all add: Let_def group_links_Cons Un_assoc)

lemma phase3_children [simp]:
  "inv_children (phase3 ah ag doc s) = inv_children s \<union> child_links ag doc"
  by (induction ah ag doc s rule: phase3.induct) (simp_all add: Let_def child_links_Cons Un_assoc)

lemma snd_links: "snd ` {(g', h). g' = g \<and> h \<in> set hs \<and> h \<in> ah} = {h \<in> set hs. h \<in> ah}"
  by force

lemma phase3_hosts [simp]:
  "inv_hosts (phase3 ah ag doc s) = inv_hosts s \<union> snd ` group_links ah ag doc"
  by (induction ah ag doc s rule: phase3.induct)
     (simp_all add: Let_def group_links_Cons Un_assoc image_Un snd_links)

lemma phase3_vars_other:
  "e \<notin> fst ` set doc \<or> e \<notin> ag \<or> e = ''_meta'' \<Longrightarrow> inv_vars (phase3 ah ag doc s) e = inv_vars s e"
  by (induction ah ag doc s rule: phase3.induct) (auto simp: Let_def set_variables_vars)

lemma phase3_vars_cong:
  "inv_vars s e = inv_vars s' e \<Longrightarrow>
   inv_vars (phase3 ah ag doc s) e = inv_vars (phase3 ah' ag doc s') e"
proof (induction doc arbitrary: s s')
  case Nil
  then show ?case by simp
next
  case (Cons entry doc)
  obtain g c where entry: "entry = (g, c)" by (cases entry)
  show ?case
    unfolding entry phase3.simps Let_def
    using Cons.prems by (auto intro!: Cons.IH simp: set_variables_vars)
qed

lemma phase3_vars_group:
  "distinct (map fst doc) \<Longrightarrow> (g, c) \<in> set doc \<Longrightarrow> g \<in> ag \<Longrightarrow> g \<noteq> ''_meta'' \<Longrightarrow>
   inv_vars (phase3 ah ag doc s) g = inv_vars s g ++ map_of (rev (get_default (vars c) []))"
proof (induction doc arbitrary: s)
  case Nil
  then show ?case by simp
next
  case (Cons entry doc)
  obtain g' c' where entry: "entry = (g', c')" by (cases entry)
  show ?case
  proof (cases "g' = g")
    case True
    with Cons.prems entry have c: "c' = c" and notin: "g \<notin> fst ` set doc"
      by (auto simp: image_iff)
    show ?thesis
      unfolding entry phase3.simps Let_def True c
      using Cons.prems(3,4) by (simp add: phase3_vars_other notin set_variables_vars)
  next
    case False
    with Cons.prems entry have mem: "(g, c) \<in> set doc" and d: "distinct (map fst doc)"
      by auto
    show ?thesis
      unfolding entry phase3.simps Let_def
      using False by (simp add: Cons.IH[OF d mem Cons.prems(3,4)] set_variables_vars)
  qed
qed

lemma overlay_empty [simp]: "overlay empty_inventory s = s"
  by (simp add: overlay_def empty_inventory_def)

lemma map_add_twice: "m ++ d ++ d = m ++ d"
  by (simp add: fun_eq_iff map_add_def split: option.splits)

lemma overlay_idem [simp]: "overlay d (overlay d s) = overlay d s"
  by (simp add: overlay_def Un_assoc map_add_twice)

lemma overlay_add_group: "add_group g (overlay d s) = overlay (add_group g d) s"
  by (simp add: overlay_def add_group_def)

lemma overlay_add_host: "add_host h go (overlay d s) = overlay (add_host h go d) s"
  by (simp add: overlay_def add_host_def Let_def split: option.splits)

lemma overlay_add_child: "add_child g c (overlay d s) = overlay (add_child g c d) s"
  by (simp add: overlay_def add_child_def)

lemma overlay_set_variable: "set_variable e k v (overlay d s) = overlay (set_variable e k v d) s"
  by (simp add: overlay_def set_variable_def fun_eq_iff)

lemma overlay_set_variables: "set_variables e kvs (overlay d s) = overlay (set_variables e kvs d) s"
  by (induction e kvs d rule: set_variables.induct) (simp_all add: overlay_set_variable)

lemma overlay_phase2: "phase2 ah hv (overlay d s) = overlay (phase2 ah hv d) s"
  by (induction ah hv d rule: phase2.induct) (simp_all add: overlay_set_variables overlay_add_host)

lemma overlay_link_hosts: "link_hosts ah g hs (overlay d s) = overlay (link_hosts ah g hs d) s"
  by (induction hs arbitrary: d) (simp_all add: overlay_add_host)

lemma overlay_link_children: "link_children ag g cs (overlay d s) = overlay (link_children ag g cs d) s"
  by (induction cs arbitrary: d) (simp_all add: overlay_add_child)

lemma overlay_phase3: "phase3 ah ag doc (overlay d s) = overlay (phase3 ah ag doc d) s"
proof (induction doc arbitrary: d)
  case Nil
  show ?case by simp
next
  case (Cons entry doc)
  obtain g c where entry: "entry = (g, c)" by (cases entry)
  show ?case
    unfolding entry phase3.simps Let_def
    by (simp add: overlay_link_hosts overlay_link_children overlay_set_variables Cons.IH)
qed

lemma overlay_phase1_inv:
  "s\<lparr>inv_groups := inv_groups s \<union> A\<rparr> = overlay (empty_inventory\<lparr>inv_groups := A\<rparr>) s"
  by (simp add: overlay_def empty_inventory_def)

lemma build_overlay:
  "build gp hgp hp doc s =
     (case build gp hgp hp doc empty_inventory of
        Inl e \<Rightarrow> Inl e
      | Inr d \<Rightarrow> Inr (overlay d s))"
  unfolding build_def phase1_eq
  by (simp add: overlay_phase1_inv[of s] overlay_phase2 overlay_phase3 empty_inventory_def
           split: option.splits)

lemma build_idem:
  "build gp hgp hp doc s = Inr G \<Longrightarrow> build gp hgp hp doc G = Inr G"
  by (subst build_overlay, subst (asm) build_overlay) (auto split: sum.splits)

section \<open>What the three phases do, in the specification's words\<close>

lemmas example_defs =
  example_inventory_def collision_inventory_def group_entry_def meta_entry_def only_def
  get_default_def empty_inventory_def

lemma allowed_groups_of_eq: "allowed_groups_of gp hgp hp doc = admitted_groups gp doc"
  by (simp add: allowed_groups_of_def phase1_eq)

lemma allowed_hosts_of_eq: "allowed_hosts_of gp hgp hp doc = scanned_hosts gp hgp hp doc"
  by (simp add: allowed_hosts_of_def phase1_eq)

lemma build_Inr:
  "build gp hgp hp doc s = Inr G \<longleftrightarrow>
     (\<exists>meta all_hosts. map_of doc ''_meta'' = Some meta \<and> hostvars meta = Some all_hosts \<and>
        G = phase3 (scanned_hosts gp hgp hp doc) (admitted_groups gp doc) doc
              (phase2 (scanned_hosts gp hgp hp doc) all_hosts
                 (s\<lparr>inv_groups := inv_groups s \<union> admitted_groups gp doc\<rparr>)))"
  by (auto simp: build_def phase1_eq split: option.splits)

lemma build_groups: "build gp hgp hp doc s = Inr G \<Longrightarrow> inv_groups G = inv_groups s \<union> admitted_groups gp doc"
  by (auto simp: build_Inr)

lemma build_hosts:
  "build gp hgp hp doc s = Inr G \<Longrightarrow>
   inv_hosts G = inv_hosts s \<union> (hostvars_keys doc \<inter> scanned_hosts gp hgp hp doc)
                   \<union> snd ` group_links (scanned_hosts gp hgp hp doc) (admitted_groups gp doc) doc"
proof -
  assume "build gp hgp hp doc s = Inr G"
  then obtain meta all_hosts where
    m: "map_of doc ''_meta'' = Some meta" "hostvars meta = Some all_hosts" and
    G: "G = phase3 (scanned_hosts gp hgp hp doc) (admitted_groups gp doc) doc
              (phase2 (scanned_hosts gp hgp hp doc) all_hosts
                 (s\<lparr>inv_groups := inv_groups s \<union> admitted_groups gp doc\<rparr>))"
    unfolding build_Inr by blast
  have k: "hostvars_keys doc = fst ` set all_hosts"
    by (simp add: hostvars_keys_def m)
  have "{h \<in> fst ` set all_hosts. h \<in> scanned_hosts gp hgp hp doc} =
        fst ` set all_hosts \<inter> scanned_hosts gp hgp hp doc"
    by blast
  then show ?thesis
    unfolding G k by simp
qed

lemma mem_admitted_groups:
  "(g, c) \<in> set doc \<Longrightarrow> g \<in> admitted_groups gp doc \<longleftrightarrow> g \<noteq> ''_meta'' \<and> admitGroup gp g"
  by (force simp: admitted_groups_def)

lemma build_members:
  "build gp hgp hp doc s = Inr G \<Longrightarrow>
   inv_members G = inv_members s \<union> group_links (scanned_hosts gp hgp hp doc) (admitted_groups gp doc) doc"
  by (auto simp: build_Inr)

lemma build_children:
  "build gp hgp hp doc s = Inr G \<Longrightarrow>
   inv_children G = inv_children s \<union> child_links (admitted_groups gp doc) doc"
  by (auto simp: build_Inr)

lemma build_vars_other:
  "build gp hgp hp doc s = Inr G \<Longrightarrow> e \<notin> scanned_hosts gp hgp hp doc \<Longrightarrow>
   e \<notin> admitted_groups gp doc \<Longrightarrow> inv_vars G e = inv_vars s e"
  by (auto simp: build_Inr phase3_vars_other phase2_vars_other)

lemma bex_pair: "(\<exists>(g, c) \<in> S. P g c) \<longleftrightarrow> (\<exists>g c. (g, c) \<in> S \<and> P g c)"
  by auto

lemma snd_group_links:
  "h \<in> snd ` group_links ah ag doc \<longleftrightarrow>
     h \<in> ah \<and> (\<exists>g c. (g, c) \<in> set doc \<and> g \<in> ag \<and> g \<noteq> ''all'' \<and> g \<noteq> ''_meta'' \<and> h \<in> set (get_default (hosts c) []))"
  by (force simp: group_links_def)

section \<open>The claims about the graph\<close>

text \<open>
  Claim C1, as amended. After a successful build a host is in the inventory exactly when it
  was there before, or the host rule admits its name, a group other than \<^verbatim>\<open>_meta\<close>
  that passes the group rule and the hostgroup rule lists it, and it either has an entry in
  \<^verbatim>\<open>_meta.hostvars\<close> or is listed by an admitted group other than \<^verbatim>\<open>all\<close>
  (phase 3 calls \<^verbatim>\<open>add_host(host_name, group_name)\<close> for such a host whether or not
  phase 2 created it).
\<close>

theorem host_present_iff:
  assumes "build gp hgp hp inventory sinv = Inr G"
  shows "h \<in> inv_hosts G \<longleftrightarrow>
     h \<in> inv_hosts sinv \<or>
     (admitHost hp h \<and>
      (\<exists>(g, c) \<in> set inventory. g \<noteq> ''_meta'' \<and> admitGroup gp g \<and> admitHostInGroup hgp g \<and>
          h \<in> set (get_default (hosts c) [])) \<and>
      (h \<in> hostvars_keys inventory \<or>
       (\<exists>(g, c) \<in> set inventory. g \<noteq> ''_meta'' \<and> g \<noteq> ''all'' \<and> admitGroup gp g \<and>
          h \<in> set (get_default (hosts c) []))))"
proof -
  let ?AH = "scanned_hosts gp hgp hp inventory"
  have sc: "h \<in> ?AH \<longleftrightarrow>
      admitHost hp h \<and>
      (\<exists>(g, c) \<in> set inventory. g \<noteq> ''_meta'' \<and> admitGroup gp g \<and> admitHostInGroup hgp g \<and>
          h \<in> set (get_default (hosts c) []))"
    by (simp add: scanned_hosts_def)
  have gl: "h \<in> snd ` group_links ?AH (admitted_groups gp inventory) inventory \<longleftrightarrow>
      h \<in> ?AH \<and>
      (\<exists>g c. (g, c) \<in> set inventory \<and> g \<noteq> ''_meta'' \<and> g \<noteq> ''all'' \<and> admitGroup gp g \<and>
          h \<in> set (get_default (hosts c) []))"
    unfolding snd_group_links using mem_admitted_groups[of _ _ inventory gp] by blast
  have "h \<in> inv_hosts G \<longleftrightarrow>
     h \<in> inv_hosts sinv \<or>
     (h \<in> ?AH \<and>
      (h \<in> hostvars_keys inventory \<or>
       (\<exists>g c. (g, c) \<in> set inventory \<and> g \<noteq> ''_meta'' \<and> g \<noteq> ''all'' \<and> admitGroup gp g \<and>
          h \<in> set (get_default (hosts c) []))))"
    unfolding build_hosts[OF assms] Un_iff Int_iff gl by blast
  then show ?thesis
    unfolding sc bex_pair by simp
qed


text \<open>With the hosts filter matching \<^verbatim>\<open>h1\<close> only, \<^verbatim>\<open>h1\<close> is the only host.\<close>

theorem host_present_iff_witness:
  "\<exists>G. build None None (only ''h1'') example_inventory empty_inventory = Inr G \<and>
       ''h1'' \<in> inv_hosts G \<and> ''h2'' \<notin> inv_hosts G \<and> ''h3'' \<notin> inv_hosts G"
proof -
  obtain G where G: "build None None (only ''h1'') example_inventory empty_inventory = Inr G"
    by (simp add: build_def example_defs)
  have "''h1'' \<in> inv_hosts G"
    using host_present_iff [OF G, of "''h1''"]
    by (simp add: example_defs admitHost_def admitGroup_def admitHostInGroup_def hostvars_keys_def)
  moreover have "''h2'' \<notin> inv_hosts G"
    using host_present_iff [OF G, of "''h2''"]
    by (simp add: example_defs admitHost_def)
  moreover have "''h3'' \<notin> inv_hosts G"
    using host_present_iff [OF G, of "''h3''"]
    by (simp add: example_defs admitHost_def)
  ultimately show ?thesis using G by blast
qed

text \<open>
  Claim C1 as stated fails: with no filter, \<^verbatim>\<open>h3\<close> of the example document is in
  the inventory (group \<^verbatim>\<open>g2\<close> lists it) although \<^verbatim>\<open>_meta.hostvars\<close> has no
  entry for it.
\<close>

theorem host_rule_counterexample:
  "\<not> isl (build None None None example_inventory empty_inventory) \<and>
   ''h3'' \<in> inv_hosts (projr (build None None None example_inventory empty_inventory)) \<and>
   \<not> host_rule_as_specified None None None example_inventory ''h3''"
  by (simp add: build_def example_defs host_rule_as_specified_def hostvars_keys_def Let_def)

lemma group_links_subset: "group_links ah ag doc \<subseteq> ag \<times> ah"
  by (auto simp: group_links_def)

lemma child_links_subset: "child_links ag doc \<subseteq> ag \<times> ag"
  by (auto simp: child_links_def)

text \<open>
  Claim C2. After a successful build, every group the run registered is in the
  allowed-groups set, every host it added is in the allowed-hosts set, every membership
  edge it added goes from an allowed group to an allowed host, every child edge it added
  joins two allowed groups, and it wrote variables only under allowed names.
\<close>

theorem allowed_sets_bound_graph:
  assumes "build gp hgp hp inventory sinv = Inr G"
  shows "inv_groups G = inv_groups sinv \<union> allowed_groups_of gp hgp hp inventory \<and>
         inv_hosts G \<subseteq> inv_hosts sinv \<union> allowed_hosts_of gp hgp hp inventory \<and>
         inv_members G \<subseteq> inv_members sinv \<union>
            allowed_groups_of gp hgp hp inventory \<times> allowed_hosts_of gp hgp hp inventory \<and>
         inv_children G \<subseteq> inv_children sinv \<union>
            allowed_groups_of gp hgp hp inventory \<times> allowed_groups_of gp hgp hp inventory \<and>
         (\<forall>e. e \<notin> allowed_hosts_of gp hgp hp inventory \<longrightarrow>
              e \<notin> allowed_groups_of gp hgp hp inventory \<longrightarrow> inv_vars G e = inv_vars sinv e)"
proof -
  let ?AH = "scanned_hosts gp hgp hp inventory" and ?AG = "admitted_groups gp inventory"
  have "inv_groups G = inv_groups sinv \<union> ?AG"
    by (rule build_groups[OF assms])
  moreover have "inv_hosts G \<subseteq> inv_hosts sinv \<union> ?AH"
    unfolding build_hosts[OF assms] using group_links_subset[of ?AH ?AG inventory] by auto
  moreover have "inv_members G \<subseteq> inv_members sinv \<union> ?AG \<times> ?AH"
    unfolding build_members[OF assms] using group_links_subset[of ?AH ?AG inventory] by blast
  moreover have "inv_children G \<subseteq> inv_children sinv \<union> ?AG \<times> ?AG"
    unfolding build_children[OF assms] using child_links_subset[of ?AG inventory] by blast
  moreover have "\<forall>e. e \<notin> ?AH \<longrightarrow> e \<notin> ?AG \<longrightarrow> inv_vars G e = inv_vars sinv e"
    using build_vars_other[OF assms] by blast
  ultimately show ?thesis
    unfolding allowed_groups_of_eq allowed_hosts_of_eq by blast
qed

lemma example_allowed_groups:
  "allowed_groups_of (only ''g1'') None None example_inventory = {''all'', ''g1''}"
  by (auto simp: allowed_groups_of_def example_defs)

lemma example_allowed_hosts:
  "allowed_hosts_of (only ''g1'') None None example_inventory = {''h1'', ''h2''}"
  by (auto simp: allowed_hosts_of_def example_defs)

text \<open>
  With the groups filter matching \<^verbatim>\<open>g1\<close> only, neither \<^verbatim>\<open>g2\<close> nor its host
  nor the child edge from \<^verbatim>\<open>g1\<close> to \<^verbatim>\<open>g2\<close> is in the inventory.
\<close>

theorem allowed_sets_bound_graph_witness:
  "\<exists>G. build (only ''g1'') None None example_inventory empty_inventory = Inr G \<and>
       ''g2'' \<notin> inv_groups G \<and> ''h3'' \<notin> inv_hosts G \<and> (''g1'', ''g2'') \<notin> inv_children G \<and>
       (''g2'', ''h3'') \<notin> inv_members G \<and> inv_vars G ''g2'' = (\<lambda>varname. None)"
proof -
  obtain G where G: "build (only ''g1'') None None example_inventory empty_inventory = Inr G"
    by (simp add: build_def example_defs)
  show ?thesis
    using G allowed_sets_bound_graph [OF G]
    unfolding example_allowed_groups example_allowed_hosts
    by (auto simp: empty_inventory_def)
qed

text \<open>
  Claim C6. A top-level key of the document is put into the allowed-groups set, and
  registered with \<^verbatim>\<open>add_group\<close>, exactly when it is not \<^verbatim>\<open>_meta\<close> and no
  group pattern is set, or the pattern matches it, or it is \<^verbatim>\<open>all\<close>;
  \<^verbatim>\<open>_meta\<close> is never put there.
\<close>

theorem group_registered_iff:
  assumes "key \<in> fst ` set inventory"
  shows "(key \<in> allowed_groups_of gp hgp hp inventory \<longleftrightarrow>
            key \<noteq> ''_meta'' \<and> (gp = None \<or> (\<exists>p. gp = Some p \<and> p key) \<or> key = ''all'')) \<and>
         (key \<in> inv_groups (snd (snd (phase1 gp hgp hp inventory ({}, {}, sinv)))) \<longleftrightarrow>
            key \<in> inv_groups sinv \<or> key \<in> allowed_groups_of gp hgp hp inventory) \<and>
         (\<forall>G. build gp hgp hp inventory sinv = Inr G \<longrightarrow>
            (key \<in> inv_groups G \<longleftrightarrow>
               key \<in> inv_groups sinv \<or> key \<in> allowed_groups_of gp hgp hp inventory)) \<and>
         ''_meta'' \<notin> allowed_groups_of gp hgp hp inventory"
proof -
  have "key \<in> admitted_groups gp inventory \<longleftrightarrow>
          key \<noteq> ''_meta'' \<and> (gp = None \<or> (\<exists>p. gp = Some p \<and> p key) \<or> key = ''all'')"
    using assms by (cases gp) (auto simp: admitted_groups_def admitGroup_def)
  moreover have "''_meta'' \<notin> admitted_groups gp inventory"
    by (simp add: admitted_groups_def)
  moreover have "\<forall>G. build gp hgp hp inventory sinv = Inr G \<longrightarrow>
            (key \<in> inv_groups G \<longleftrightarrow> key \<in> inv_groups sinv \<or> key \<in> admitted_groups gp inventory)"
    by (auto dest: build_groups)
  ultimately show ?thesis
    unfolding allowed_groups_of_eq by (simp add: phase1_eq)
qed

text \<open>With the groups filter matching \<^verbatim>\<open>g1\<close> only, \<^verbatim>\<open>g2\<close> is not registered.\<close>

theorem group_registered_iff_witness:
  "''g2'' \<in> fst ` set example_inventory \<and>
   ''g2'' \<notin> allowed_groups_of (only ''g1'') None None example_inventory \<and>
   ''g2'' \<notin> inv_groups (snd (snd (phase1 (only ''g1'') None None example_inventory
                                    ({}, {}, empty_inventory)))) \<and>
   ''_meta'' \<notin> allowed_groups_of (only ''g1'') None None example_inventory"
proof -
  have key: "''g2'' \<in> fst ` set example_inventory"
    by (simp add: example_defs)
  show ?thesis
    using key group_registered_iff [OF key, of "only ''g1''" None None empty_inventory]
    by (simp add: only_def empty_inventory_def)
qed

text \<open>
  Claim C10. When a hostgroups pattern is set that does not match \<^verbatim>\<open>all\<close>, a host
  that no admitted group matching the pattern lists (it may be listed by \<^verbatim>\<open>all\<close>)
  is not in the allowed-hosts set, and the run adds neither the host nor a membership edge
  to it; the root group, if the document has it, is in the allowed-groups set all the same.
\<close>

theorem root_hosts_not_exempt:
  assumes "\<not> p ''all''"
    and "\<forall>(g, c) \<in> set inventory. g \<noteq> ''all'' \<and> g \<noteq> ''_meta'' \<and> admitGroup gp g \<and> p g \<longrightarrow>
           h \<notin> set (get_default (hosts c) [])"
  shows "h \<notin> allowed_hosts_of gp (Some p) hp inventory \<and>
         (\<forall>G. build gp (Some p) hp inventory sinv = Inr G \<longrightarrow>
            (h \<in> inv_hosts G \<longleftrightarrow> h \<in> inv_hosts sinv) \<and>
            (\<forall>g. (g, h) \<in> inv_members G \<longleftrightarrow> (g, h) \<in> inv_members sinv)) \<and>
         (''all'' \<in> fst ` set inventory \<longrightarrow> ''all'' \<in> allowed_groups_of gp (Some p) hp inventory)"
proof -
  let ?AH = "scanned_hosts gp (Some p) hp inventory" and ?AG = "admitted_groups gp inventory"
  have h: "h \<notin> ?AH"
    using assms by (fastforce simp: scanned_hosts_def admitHostInGroup_def)
  have links: "\<And>g. (g, h) \<notin> group_links ?AH ?AG inventory"
    using h group_links_subset[of ?AH ?AG inventory] by blast
  have "\<forall>G. build gp (Some p) hp inventory sinv = Inr G \<longrightarrow>
            (h \<in> inv_hosts G \<longleftrightarrow> h \<in> inv_hosts sinv) \<and>
            (\<forall>g. (g, h) \<in> inv_members G \<longleftrightarrow> (g, h) \<in> inv_members sinv)"
  proof (intro allI impI)
    fix G assume G: "build gp (Some p) hp inventory sinv = Inr G"
    have "h \<notin> snd ` group_links ?AH ?AG inventory"
      using links by force
    then show "(h \<in> inv_hosts G \<longleftrightarrow> h \<in> inv_hosts sinv) \<and>
            (\<forall>g. (g, h) \<in> inv_members G \<longleftrightarrow> (g, h) \<in> inv_members sinv)"
      unfolding build_hosts[OF G] build_members[OF G] using h links by blast
  qed
  moreover have "''all'' \<in> fst ` set inventory \<longrightarrow> ''all'' \<in> ?AG"
    by (simp add: admitted_groups_def admitGroup_def)
  ultimately show ?thesis
    unfolding allowed_groups_of_eq allowed_hosts_of_eq using h by blast
qed

text \<open>
  With the hostgroups filter matching \<^verbatim>\<open>g1\<close> only, \<^verbatim>\<open>h2\<close>, which only
  \<^verbatim>\<open>all\<close> lists, is left out.
\<close>

theorem root_hosts_not_exempt_witness:
  "\<exists>G. build None (only ''g1'') None example_inventory empty_inventory = Inr G \<and>
       ''h2'' \<in> set (get_default (hosts (group_entry (Some [''h1'', ''h2'']) None (Some []))) []) \<and>
       ''h2'' \<notin> allowed_hosts_of None (only ''g1'') None example_inventory \<and>
       ''h2'' \<notin> inv_hosts G \<and>
       ''all'' \<in> allowed_groups_of None (only ''g1'') None example_inventory"
proof -
  obtain G where G: "build None (Some (\<lambda>s. s = ''g1'')) None example_inventory empty_inventory = Inr G"
    by (simp add: build_def example_defs)
  have a: "\<not> (\<lambda>s. s = ''g1'') ''all''" by simp
  have b: "\<forall>(g, c) \<in> set example_inventory.
      g \<noteq> ''all'' \<and> g \<noteq> ''_meta'' \<and> admitGroup None g \<and> (\<lambda>s. s = ''g1'') g \<longrightarrow>
      ''h2'' \<notin> set (get_default (hosts c) [])"
    by (simp add: example_defs)
  show ?thesis
    using G root_hosts_not_exempt [OF a b, of None empty_inventory]
    by (auto simp: example_defs)
qed

section \<open>The claims about group variables\<close>

lemma map_of_rev_distinct:
  "distinct (map fst kvs) \<Longrightarrow> (k, v) \<in> set kvs \<Longrightarrow> map_of (rev kvs) k = Some v"
  by (rule map_of_is_SomeI) (simp_all add: rev_map [symmetric])

lemma build_group_vars:
  assumes "build gp hgp hp doc s = Inr G"
    and "distinct (map fst doc)" and "(g, c) \<in> set doc" and "g \<noteq> ''_meta''"
    and "admitGroup gp g"
    and "distinct (map fst (get_default (vars c) []))"
    and "(k, v) \<in> set (get_default (vars c) [])"
  shows "inv_vars G g k = Some v"
proof -
  from assms(1) obtain X where
    G: "G = phase3 (scanned_hosts gp hgp hp doc) (admitted_groups gp doc) doc X"
    unfolding build_Inr by blast
  have g: "g \<in> admitted_groups gp doc"
    using assms(3,4,5) by (simp add: mem_admitted_groups)
  have "inv_vars G g = inv_vars X g ++ map_of (rev (get_default (vars c) []))"
    unfolding G by (rule phase3_vars_group [OF assms(2,3) g assms(4)])
  then show ?thesis
    by (simp add: map_add_find_right map_of_rev_distinct [OF assms(6,7)])
qed

lemma scanned_hosts_listed: "scanned_hosts gp hgp hp doc \<subseteq> listed_hosts doc"
  by (auto simp: scanned_hosts_def listed_hosts_def)

lemma build_vars_filters:
  assumes "build gp hgp hp doc s = Inr G" and "build gp hgp' hp' doc s = Inr G'"
    and "g \<notin> listed_hosts doc"
  shows "inv_vars G g = inv_vars G' g"
proof -
  from assms(1) obtain meta all_hosts where
    m: "map_of doc ''_meta'' = Some meta" "hostvars meta = Some all_hosts" and
    G: "G = phase3 (scanned_hosts gp hgp hp doc) (admitted_groups gp doc) doc
              (phase2 (scanned_hosts gp hgp hp doc) all_hosts
                 (s\<lparr>inv_groups := inv_groups s \<union> admitted_groups gp doc\<rparr>))"
    unfolding build_Inr by blast
  from assms(2) m have
    G': "G' = phase3 (scanned_hosts gp hgp' hp' doc) (admitted_groups gp doc) doc
              (phase2 (scanned_hosts gp hgp' hp' doc) all_hosts
                 (s\<lparr>inv_groups := inv_groups s \<union> admitted_groups gp doc\<rparr>))"
    unfolding build_Inr by simp
  have k: "g \<notin> scanned_hosts gp hgp hp doc" "g \<notin> scanned_hosts gp hgp' hp' doc"
    using assms(3) scanned_hosts_listed by blast+
  show ?thesis
    unfolding G G' by (rule phase3_vars_cong) (simp add: phase2_vars_other k)
qed

lemma build_no_new_host:
  assumes "build gp hgp hp doc s = Inr G" and "g \<notin> listed_hosts doc"
  shows "g \<in> inv_hosts G \<longleftrightarrow> g \<in> inv_hosts s"
proof -
  let ?AH = "scanned_hosts gp hgp hp doc" and ?AG = "admitted_groups gp doc"
  have k: "g \<notin> ?AH"
    using assms(2) scanned_hosts_listed by blast
  then have "g \<notin> snd ` group_links ?AH ?AG doc"
    using group_links_subset [of ?AH ?AG doc] by force
  with k show ?thesis
    unfolding build_hosts [OF assms(1)] by blast
qed

text \<open>
  Claim C3, as amended. For every top-level key of the document other than
  \<^verbatim>\<open>_meta\<close> that the group rule admits (the root group \<^verbatim>\<open>all\<close> always is), phase
  3 copies the group's \<^verbatim>\<open>vars\<close> mapping onto the variables of that name, whatever
  the hosts and hostgroups filters are.
\<close>

theorem admitted_group_vars_copied:
  assumes "build gp hgp hp inventory sinv = Inr G"
    and "distinct (map fst inventory)" and "(g, c) \<in> set inventory" and "g \<noteq> ''_meta''"
    and "admitGroup gp g"
    and "distinct (map fst (get_default (vars c) []))"
    and "(k, v) \<in> set (get_default (vars c) [])"
  shows "inv_vars G g k = Some v"
  using assms by (rule build_group_vars)

text \<open>
  With the groups filter matching \<^verbatim>\<open>g1\<close> only and every host filtered out,
  \<^verbatim>\<open>g1\<close> has its variable \<^verbatim>\<open>env\<close>.
\<close>

theorem admitted_group_vars_copied_witness:
  "\<exists>G. build (only ''g1'') None (only ''zzz'') example_inventory empty_inventory = Inr G \<and>
       inv_hosts G = {} \<and> inv_vars G ''g1'' ''env'' = Some (JStr ''prod'')"
proof -
  obtain G where G: "build (only ''g1'') None (only ''zzz'') example_inventory empty_inventory = Inr G"
    by (simp add: build_def example_defs)
  have hosts: "inv_hosts G = {}"
    using G by (auto simp: build_def example_defs)
  have d: "distinct (map fst example_inventory)"
    by (simp add: example_defs)
  have m: "(''g1'', group_entry (Some [''h1'']) (Some [''g2'']) (Some [(''env'', JStr ''prod'')]))
             \<in> set example_inventory"
    by (simp add: example_defs)
  have "inv_vars G ''g1'' ''env'' = Some (JStr ''prod'')"
    by (rule admitted_group_vars_copied [OF G d m])
       (simp_all add: admitGroup_def only_def group_entry_def get_default_def)
  with G hosts show ?thesis by blast
qed

text \<open>
  Claim C3 as stated fails: with the groups filter matching \<^verbatim>\<open>g1\<close> only, the key
  \<^verbatim>\<open>g2\<close> of the example document is not admitted and its variable
  \<^verbatim>\<open>tier\<close> is not set.
\<close>

theorem unadmitted_group_vars_counterexample:
  "\<not> isl (build (only ''g1'') None None example_inventory empty_inventory) \<and>
   map_of example_inventory ''g2'' =
     Some (group_entry (Some [''h3'']) None (Some [(''tier'', JStr ''db'')])) \<and>
   inv_vars (projr (build (only ''g1'') None None example_inventory empty_inventory))
     ''g2'' ''tier'' = None"
  by (simp add: build_def example_defs Let_def set_variable_def)

text \<open>
  Claim C5, as amended. Two successful builds of the same document that differ only in
  the hosts filter and the hostgroups filter give the same variables to every name that
  occurs in no \<^verbatim>\<open>hosts\<close> list of the document, in particular to every admitted
  group that shares its name with no listed host; neither build adds a host of that name;
  and an admitted group of such a name has its own \<^verbatim>\<open>vars\<close> in both, even if
  every host is filtered out.
\<close>

theorem group_vars_independent_of_host_filters:
  assumes "build gp hgp hp inventory sinv = Inr G"
    and "build gp hgp' hp' inventory sinv = Inr G'"
    and "g \<notin> listed_hosts inventory"
  shows "inv_vars G g = inv_vars G' g \<and>
         (g \<in> inv_hosts G \<longleftrightarrow> g \<in> inv_hosts sinv) \<and>
         (g \<in> inv_hosts G' \<longleftrightarrow> g \<in> inv_hosts sinv) \<and>
         (\<forall>c k v. distinct (map fst inventory) \<and> (g, c) \<in> set inventory \<and> g \<noteq> ''_meta'' \<and>
            admitGroup gp g \<and> distinct (map fst (get_default (vars c) [])) \<and>
            (k, v) \<in> set (get_default (vars c) []) \<longrightarrow>
            inv_vars G g k = Some v \<and> inv_vars G' g k = Some v)"
  using build_vars_filters [OF assms] build_no_new_host [OF assms(1,3)]
    build_no_new_host [OF assms(2,3)] build_group_vars [OF assms(1)] build_group_vars [OF assms(2)]
  by blast

text \<open>
  The example document without filters and with every host filtered out: \<^verbatim>\<open>g1\<close>,
  which no \<^verbatim>\<open>hosts\<close> list carries, has the same variables in both, among them its
  own \<^verbatim>\<open>env\<close>.
\<close>

theorem group_vars_independent_of_host_filters_witness:
  "\<exists>G G'. build None None None example_inventory empty_inventory = Inr G \<and>
       build None (only ''g2'') (only ''zzz'') example_inventory empty_inventory = Inr G' \<and>
       ''g1'' \<notin> listed_hosts example_inventory \<and> inv_hosts G' = {} \<and>
       inv_vars G ''g1'' = inv_vars G' ''g1'' \<and>
       inv_vars G' ''g1'' ''env'' = Some (JStr ''prod'')"
proof -
  obtain G where G: "build None None None example_inventory empty_inventory = Inr G"
    by (simp add: build_def example_defs)
  obtain G' where
    G': "build None (only ''g2'') (only ''zzz'') example_inventory empty_inventory = Inr G'"
    by (simp add: build_def example_defs)
  have hosts: "inv_hosts G' = {}"
    using G' by (auto simp: build_def example_defs)
  have k: "''g1'' \<notin> listed_hosts example_inventory"
    by (simp add: listed_hosts_def example_defs)
  have d: "distinct (map fst example_inventory)"
    by (simp add: example_defs)
  have m: "(''g1'', group_entry (Some [''h1'']) (Some [''g2'']) (Some [(''env'', JStr ''prod'')]))
             \<in> set example_inventory"
    by (simp add: example_defs)
  have a: "admitGroup None ''g1''"
    by (simp add: admitGroup_def)
  have v: "distinct (map fst (get_default (vars (group_entry (Some [''h1'']) (Some [''g2''])
                (Some [(''env'', JStr ''prod'')]))) []))"
          "(''env'', JStr ''prod'') \<in> set (get_default (vars (group_entry (Some [''h1''])
                (Some [''g2'']) (Some [(''env'', JStr ''prod'')]))) [])"
    by (simp_all add: group_entry_def get_default_def)
  have "inv_vars G ''g1'' = inv_vars G' ''g1'' \<and> inv_vars G' ''g1'' ''env'' = Some (JStr ''prod'')"
    using group_vars_independent_of_host_filters [OF G G' k] d m a v by blast
  with G G' k hosts show ?thesis by blast
qed

text \<open>
  Claim C5 as stated fails: in a document whose group \<^verbatim>\<open>db\<close> lists a host of the
  same name, \<^verbatim>\<open>set_variable('db', 'role', ...)\<close> of phase 2 is issued when the host
  is allowed and not issued when the hosts filter rejects it, so the variables under the
  name of the admitted group \<^verbatim>\<open>db\<close> depend on the hosts filter.
\<close>

theorem group_vars_collision_counterexample:
  "\<not> isl (build None None None collision_inventory empty_inventory) \<and>
   \<not> isl (build None None (only ''zzz'') collision_inventory empty_inventory) \<and>
   ''db'' \<in> allowed_groups_of None None None collision_inventory \<and>
   ''db'' \<in> allowed_groups_of None None (only ''zzz'') collision_inventory \<and>
   inv_vars (projr (build None None None collision_inventory empty_inventory))
     ''db'' ''role'' = Some (JStr ''primary'') \<and>
   inv_vars (projr (build None None (only ''zzz'') collision_inventory empty_inventory))
     ''db'' ''role'' = None"
  by (simp add: build_def allowed_groups_of_def example_defs Let_def set_variable_def)

section \<open>The run as a whole\<close>

lemma fetch_metadata_Inr:
  "fetch_metadata env controller_host B requested = (Inr G, requested') \<longleftrightarrow>
     (\<exists>config_data sd. config_endpoint env (config_url env controller_host) = Body config_data \<and>
        server_data config_data = Inr sd \<and>
        G = set_variable ''all'' ''controller_metadata'' sd B \<and>
        requested' = requested @ [config_url env controller_host])"
  by (cases "config_endpoint env (config_url env controller_host)")
     (auto simp: fetch_metadata_def make_request_def split: sum.splits)

lemma fetch_and_build_Inr:
  "fetch_and_build env opts controller_host inventory_id gp hgp hp sinv requested = (Inr G, requested') \<longleftrightarrow>
     (\<exists>inventory B. script_endpoint env (inventory_url env controller_host inventory_id) = Body inventory \<and>
        build gp hgp hp inventory sinv = Inr B \<and>
        (if include_metadata opts
         then fetch_metadata env controller_host B
                (requested @ [inventory_url env controller_host inventory_id]) = (Inr G, requested')
         else G = B \<and> requested' = requested @ [inventory_url env controller_host inventory_id]))"
  by (cases "script_endpoint env (inventory_url env controller_host inventory_id)")
     (auto simp: fetch_and_build_def make_request_def split: sum.splits)

lemma parse_Inr:
  "parse env opts sinv = (Inr G, requested) \<longleftrightarrow>
     (\<exists>name inventory_data inventory_id hosts_pattern hostgroups_pattern groups_pattern.
        checked_inventory_name (inventory_name opts) = Inr name \<and>
        inventories_endpoint env (inventory_name_url env (normalise_host (host opts)) name)
          = Body inventory_data \<and>
        first_id inventory_data = Inr inventory_id \<and>
        compile_filter env (hosts_filter opts) = Inr hosts_pattern \<and>
        compile_filter env (hostgroups_filter opts) = Inr hostgroups_pattern \<and>
        compile_filter env (groups_filter opts) = Inr groups_pattern \<and>
        fetch_and_build env opts (normalise_host (host opts)) inventory_id
          groups_pattern hostgroups_pattern hosts_pattern sinv
          [inventory_name_url env (normalise_host (host opts)) name] = (Inr G, requested))"
proof (cases "checked_inventory_name (inventory_name opts)")
  case (Inl e)
  then show ?thesis by (simp add: parse_def)
next
  case (Inr name)
  show ?thesis
    by (cases "inventories_endpoint env (inventory_name_url env (normalise_host (host opts)) name)")
       (auto simp: parse_def Let_def Inr make_request_def split: sum.splits)
qed

lemma str_int_7: "str_int 7 = ''7''"
  by code_simp

lemmas run_defs =
  parse_def fetch_and_build_def fetch_metadata_def make_request_def example_environment_def
  example_options_def bad_filter_options_def unknown_name_options_def normalise_host_def
  has_scheme_def checked_inventory_name_def inventory_name_url_def inventory_url_def
  config_url_def replace_spaces_def remove_slashes_def first_id_def compile_filter_def
  server_data_def dict_get_def str_int_7

lemma example_run:
  "\<exists>G. parse example_environment example_options empty_inventory =
     (Inr G, [''https://controller.example/api/v2/inventories/?name=prod%20east'',
              ''https://controller.example/api/v2/inventories/7/script/?hostvars=1&controllervars=1&all=1'',
              ''https://controller.example/api/v2/config/''])"
  by (simp add: run_defs build_def example_defs)

lemma compile_filter_Inl:
  "compile_filter env f = Inl e \<longleftrightarrow> invalid_filter env f \<and> e = RegexError"
  by (auto simp: compile_filter_def invalid_filter_def split: option.splits)

lemma compile_filter_Inr:
  "compile_filter env f = Inr pat \<Longrightarrow> \<not> invalid_filter env f"
  by (auto simp: compile_filter_def invalid_filter_def split: option.splits if_splits)

lemma compile_filter_cases:
  obtains (invalid) "invalid_filter env f" "compile_filter env f = Inl RegexError"
  | (valid) pat where "\<not> invalid_filter env f" "compile_filter env f = Inr pat"
  by (cases "compile_filter env f") (auto simp: compile_filter_Inl dest: compile_filter_Inr)

lemma parse_not_Inr_if_invalid:
  assumes "invalid_filter env (hosts_filter opts) \<or> invalid_filter env (hostgroups_filter opts) \<or>
           invalid_filter env (groups_filter opts)"
  shows "parse env opts sinv \<noteq> (Inr G, requested)"
proof
  assume "parse env opts sinv = (Inr G, requested)"
  then obtain hpat hgpat gpat where
    "compile_filter env (hosts_filter opts) = Inr hpat"
    "compile_filter env (hostgroups_filter opts) = Inr hgpat"
    "compile_filter env (groups_filter opts) = Inr gpat"
    unfolding parse_Inr by blast
  with assms show False
    by (auto dest: compile_filter_Inr)
qed

lemma parse_invalid_after_lookup:
  assumes "invalid_filter env (hosts_filter opts) \<or> invalid_filter env (hostgroups_filter opts) \<or>
           invalid_filter env (groups_filter opts)"
    and "checked_inventory_name (inventory_name opts) = Inr name"
  shows "snd (parse env opts sinv) = [inventory_name_url env (normalise_host (host opts)) name]"
    and "inventories_endpoint env (inventory_name_url env (normalise_host (host opts)) name)
           = Body inventory_data \<Longrightarrow> first_id inventory_data = Inr inventory_id \<Longrightarrow>
         fst (parse env opts sinv) = Inl RegexError"
proof -
  let ?url = "inventory_name_url env (normalise_host (host opts)) name"
  show "snd (parse env opts sinv) = [?url]"
  proof (cases "inventories_endpoint env ?url")
    case (Body inventory_data)
    show ?thesis
    proof (cases "first_id inventory_data")
      case (Inl e)
      then show ?thesis
        by (simp add: parse_def Let_def assms(2) make_request_def Body)
    next
      case (Inr inventory_id)
      show ?thesis
        using assms(1)
        by (cases rule: compile_filter_cases [of env "hosts_filter opts"];
            cases rule: compile_filter_cases [of env "hostgroups_filter opts"];
            cases rule: compile_filter_cases [of env "groups_filter opts"])
           (simp_all add: parse_def Let_def assms(2) make_request_def Body Inr)
    qed
  qed (simp_all add: parse_def Let_def assms(2) make_request_def)
  show "fst (parse env opts sinv) = Inl RegexError"
    if "inventories_endpoint env ?url = Body inventory_data" "first_id inventory_data = Inr inventory_id"
    using assms(1)
    by (cases rule: compile_filter_cases [of env "hosts_filter opts"];
        cases rule: compile_filter_cases [of env "hostgroups_filter opts"];
        cases rule: compile_filter_cases [of env "groups_filter opts"])
       (simp_all add: parse_def Let_def assms(2) make_request_def that)
qed

text \<open>
  Claim C4, as amended. Whenever a configured filter is invalid the run fails and builds
  no graph; the inventory script endpoint and the config endpoint are never queried, but
  the query by name has been sent by then (the filters are compiled at lines 231 to 246,
  after the request of line 224): whenever the inventory name is usable the requests made
  are exactly that one, and when it resolves, the failure is the error of
  \<^verbatim>\<open>re.compile\<close>.
\<close>

theorem invalid_filter_fails_after_name_lookup:
  assumes "invalid_filter env (hosts_filter opts) \<or> invalid_filter env (hostgroups_filter opts) \<or>
           invalid_filter env (groups_filter opts)"
  shows "(\<exists>e. fst (parse env opts sinv) = Inl e) \<and>
         (\<forall>name. checked_inventory_name (inventory_name opts) = Inr name \<longrightarrow>
            snd (parse env opts sinv) =
              [inventory_name_url env (normalise_host (host opts)) name]) \<and>
         (\<forall>name inventory_data inventory_id.
            checked_inventory_name (inventory_name opts) = Inr name \<and>
            inventories_endpoint env (inventory_name_url env (normalise_host (host opts)) name)
              = Body inventory_data \<and>
            first_id inventory_data = Inr inventory_id \<longrightarrow>
            fst (parse env opts sinv) = Inl RegexError)"
proof -
  have "\<exists>e. fst (parse env opts sinv) = Inl e"
    using parse_not_Inr_if_invalid [OF assms, of sinv]
    by (cases "parse env opts sinv"; cases "fst (parse env opts sinv)") auto
  then show ?thesis
    using parse_invalid_after_lookup [OF assms] by blast
qed

text \<open>The example controller with the hosts filter \<^verbatim>\<open>(\<close>.\<close>

theorem invalid_filter_fails_after_name_lookup_witness:
  "invalid_filter example_environment (hosts_filter bad_filter_options) \<and>
   fst (parse example_environment bad_filter_options empty_inventory) = Inl RegexError \<and>
   snd (parse example_environment bad_filter_options empty_inventory) =
     [''https://controller.example/api/v2/inventories/?name=prod%20east'']"
proof -
  have bad: "invalid_filter example_environment (hosts_filter bad_filter_options) \<or>
             invalid_filter example_environment (hostgroups_filter bad_filter_options) \<or>
             invalid_filter example_environment (groups_filter bad_filter_options)"
    by (simp add: invalid_filter_def run_defs)
  have name: "checked_inventory_name (inventory_name bad_filter_options) = Inr ''prod east''"
    by (simp add: run_defs)
  have url: "inventory_name_url example_environment (normalise_host (host bad_filter_options))
               ''prod east'' = ''https://controller.example/api/v2/inventories/?name=prod%20east''"
    by (simp add: run_defs)
  have body: "inventories_endpoint example_environment
                ''https://controller.example/api/v2/inventories/?name=prod%20east''
                = Body \<lparr>results = Some [\<lparr>row_id = Some 7\<rparr>]\<rparr>"
    by (simp add: run_defs)
  have ident: "first_id \<lparr>results = Some [\<lparr>row_id = Some 7\<rparr>]\<rparr> = Inr ''7''"
    by (simp add: run_defs)
  show ?thesis
    using invalid_filter_fails_after_name_lookup [OF bad, of empty_inventory] name url body ident
    by (auto simp: invalid_filter_def bad_filter_options_def example_options_def
                   example_environment_def)
qed

text \<open>
  Claim C4 as stated fails: with the hosts filter \<^verbatim>\<open>(\<close> the run fails with the
  error of \<^verbatim>\<open>re.compile\<close> after one request has been sent.
\<close>

theorem invalid_filter_counterexample:
  "invalid_filter example_environment (hosts_filter bad_filter_options) \<and>
   parse example_environment bad_filter_options empty_inventory =
     (Inl RegexError, [''https://controller.example/api/v2/inventories/?name=prod%20east''])"
  by (simp add: run_defs invalid_filter_def)

text \<open>
  Claim C7. When the answer to the query by name has an empty \<^verbatim>\<open>results\<close> list,
  the run fails with a lookup error (\<^verbatim>\<open>IndexError\<close>, raised by
  \<^verbatim>\<open>inventory_data['results'][0]\<close>) and the query by name is the only request made.
\<close>

theorem empty_results_lookup_error:
  assumes "checked_inventory_name (inventory_name opts) = Inr name"
    and "inventories_endpoint env (inventory_name_url env (normalise_host (host opts)) name)
           = Body inventory_data"
    and "results inventory_data = Some []"
  shows "parse env opts sinv =
           (Inl IndexError, [inventory_name_url env (normalise_host (host opts)) name]) \<and>
         is_lookup_error IndexError"
  using assms
  by (simp add: parse_def Let_def make_request_def first_id_def is_lookup_error_def)

text \<open>The example controller asked for an inventory it does not know.\<close>

theorem empty_results_lookup_error_witness:
  "parse example_environment unknown_name_options empty_inventory =
     (Inl IndexError, [''https://controller.example/api/v2/inventories/?name=nope''])"
proof -
  have name: "checked_inventory_name (inventory_name unknown_name_options) = Inr ''nope''"
    by (simp add: run_defs)
  have url: "inventory_name_url example_environment (normalise_host (host unknown_name_options))
               ''nope'' = ''https://controller.example/api/v2/inventories/?name=nope''"
    by (simp add: run_defs)
  have body: "inventories_endpoint example_environment
                (inventory_name_url example_environment
                   (normalise_host (host unknown_name_options)) ''nope'')
                = Body \<lparr>results = Some []\<rparr>"
    unfolding url by (simp add: run_defs)
  have empty: "results \<lparr>results = Some []\<rparr> = Some []"
    by simp
  show ?thesis
    using empty_results_lookup_error [OF name body empty, of empty_inventory]
    unfolding url by simp
qed

lemma set_variable_overlay_absorb:
  "set_variable e k v (overlay d (set_variable e k v X)) = set_variable e k v (overlay d X)"
  by (simp add: set_variable_def overlay_def fun_eq_iff map_add_def split: option.splits)

lemma fetch_and_build_idem:
  assumes "fetch_and_build env opts controller_host inventory_id gp hgp hp sinv requested
             = (Inr G, requested')"
  shows "fetch_and_build env opts controller_host inventory_id gp hgp hp G requested
             = (Inr G, requested')"
proof -
  from assms obtain inventory B where
    s: "script_endpoint env (inventory_url env controller_host inventory_id) = Body inventory" and
    B: "build gp hgp hp inventory sinv = Inr B" and
    rest: "if include_metadata opts
         then fetch_metadata env controller_host B
                (requested @ [inventory_url env controller_host inventory_id]) = (Inr G, requested')
         else G = B \<and> requested' = requested @ [inventory_url env controller_host inventory_id]"
    unfolding fetch_and_build_Inr by blast
  from B obtain d where d: "build gp hgp hp inventory empty_inventory = Inr d"
    and Bd: "B = overlay d sinv"
    by (subst (asm) build_overlay) (auto split: sum.splits)
  have again: "build gp hgp hp inventory X = Inr (overlay d X)" for X
    by (subst build_overlay) (simp add: d)
  show ?thesis
  proof (cases "include_metadata opts")
    case False
    with rest s B show ?thesis
      unfolding fetch_and_build_Inr by (simp add: build_idem)
  next
    case True
    with rest obtain config_data sd where
      c: "config_endpoint env (config_url env controller_host) = Body config_data"
         "server_data config_data = Inr sd" and
      G: "G = set_variable ''all'' ''controller_metadata'' sd B" and
      r: "requested' = requested @ [inventory_url env controller_host inventory_id]
                         @ [config_url env controller_host]"
      unfolding fetch_metadata_Inr by auto
    have "set_variable ''all'' ''controller_metadata'' sd (overlay d G) = G"
      unfolding G Bd by (simp add: set_variable_overlay_absorb)
    then show ?thesis
      unfolding fetch_and_build_Inr fetch_metadata_Inr
      using True s c r again [of G] by auto
  qed
qed

text \<open>
  Claim C8. The build is a function of the document, the patterns and the inventory object
  it starts from, and running it again on the inventory it produced changes nothing; the
  same holds for the whole run, metadata included.
\<close>

theorem run_idempotent:
  "(build gp hgp hp inventory sinv = Inr B \<longrightarrow> build gp hgp hp inventory B = Inr B) \<and>
   (parse env opts sinv = (Inr G, requested) \<longrightarrow> parse env opts G = (Inr G, requested))"
proof -
  have "parse env opts G = (Inr G, requested)" if "parse env opts sinv = (Inr G, requested)"
    using that unfolding parse_Inr by (blast intro: fetch_and_build_idem)
  then show ?thesis
    by (blast intro: build_idem)
qed

text \<open>The example run, repeated on its own result.\<close>

theorem run_idempotent_witness:
  "\<exists>B G requested.
      build None None None example_inventory empty_inventory = Inr B \<and>
      build None None None example_inventory B = Inr B \<and>
      parse example_environment example_options empty_inventory = (Inr G, requested) \<and>
      length requested = 3 \<and>
      parse example_environment example_options G = (Inr G, requested)"
proof -
  obtain B where B: "build None None None example_inventory empty_inventory = Inr B"
    by (simp add: build_def example_defs)
  from example_run obtain G requested where
    run: "parse example_environment example_options empty_inventory = (Inr G, requested)"
    and len: "length requested = 3"
    by auto
  have "build None None None example_inventory B = Inr B \<and>
        parse example_environment example_options G = (Inr G, requested)"
    using B run run_idempotent [of None None None example_inventory empty_inventory B
        example_environment example_options G requested]
    by blast
  with B run len show ?thesis by blast
qed

lemma server_data_Inr:
  "server_data config_data = Inr sd \<Longrightarrow> sd = metadata_as_specified config_data"
  by (auto simp: server_data_def dict_get_def metadata_as_specified_def
           split: option.splits json.splits)

text \<open>
  Claim C9. A successful run with metadata enabled ends with one more
  \<^verbatim>\<open>set_variable\<close>, on \<^verbatim>\<open>all\<close>, whose value is the three-key mapping of
  section 4.3 built from the answer of the config endpoint, the third and last request;
  with metadata disabled the run makes two requests and its result is the inventory
  phase 3 left.
\<close>

theorem metadata_variable:
  assumes "parse env opts sinv = (Inr G, requested)"
  shows "\<exists>inventory gp hgp hp B. build gp hgp hp inventory sinv = Inr B \<and>
           (if include_metadata opts
            then (\<exists>config_data.
                    config_endpoint env (config_url env (normalise_host (host opts)))
                      = Body config_data \<and>
                    G = set_variable ''all'' ''controller_metadata''
                          (metadata_as_specified config_data) B \<and>
                    inv_vars G ''all'' ''controller_metadata''
                      = Some (metadata_as_specified config_data) \<and>
                    length requested = 3 \<and>
                    last requested = config_url env (normalise_host (host opts)))
            else G = B \<and> length requested = 2)"
proof -
  from assms obtain name inventory_id hp hgp gp where
    fb: "fetch_and_build env opts (normalise_host (host opts)) inventory_id gp hgp hp sinv
          [inventory_name_url env (normalise_host (host opts)) name] = (Inr G, requested)"
    unfolding parse_Inr by blast
  then obtain inventory B where
    B: "build gp hgp hp inventory sinv = Inr B" and
    rest: "if include_metadata opts
         then fetch_metadata env (normalise_host (host opts)) B
                ([inventory_name_url env (normalise_host (host opts)) name] @
                 [inventory_url env (normalise_host (host opts)) inventory_id]) = (Inr G, requested)
         else G = B \<and> requested = [inventory_name_url env (normalise_host (host opts)) name] @
                 [inventory_url env (normalise_host (host opts)) inventory_id]"
    unfolding fetch_and_build_Inr by blast
  show ?thesis
  proof (cases "include_metadata opts")
    case False
    with rest B show ?thesis by auto
  next
    case True
    with rest obtain config_data sd where
      c: "config_endpoint env (config_url env (normalise_host (host opts))) = Body config_data"
         "server_data config_data = Inr sd" and
      G: "G = set_variable ''all'' ''controller_metadata'' sd B" and
      r: "requested = [inventory_name_url env (normalise_host (host opts)) name] @
                 [inventory_url env (normalise_host (host opts)) inventory_id] @
                 [config_url env (normalise_host (host opts))]"
      unfolding fetch_metadata_Inr by auto
    show ?thesis
      using True B c(1) G r server_data_Inr [OF c(2)]
      by (intro exI [of _ inventory] exI [of _ gp] exI [of _ hgp] exI [of _ hp] exI [of _ B]) auto
  qed
qed

text \<open>
  The example controller reports a version and a license type and no
  \<^verbatim>\<open>ansible_version\<close>.
\<close>

theorem metadata_variable_witness:
  "\<exists>G requested G' requested'.
      parse example_environment example_options empty_inventory = (Inr G, requested) \<and>
      inv_vars G ''all'' ''controller_metadata'' =
        Some (JDict [(''license_type'', JStr ''enterprise''), (''version'', JStr ''4.5.0''),
                     (''ansible_version'', JStr ''unknown'')]) \<and>
      parse example_environment (example_options\<lparr>include_metadata := False\<rparr>) empty_inventory
        = (Inr G', requested') \<and>
      length requested' = 2 \<and>
      build None None None example_inventory empty_inventory = Inr G' \<and>
      inv_vars G' ''all'' ''controller_metadata'' = None"
proof -
  from example_run obtain G requested where
    run: "parse example_environment example_options empty_inventory = (Inr G, requested)"
    by auto
  have url: "config_url example_environment (normalise_host (host example_options)) =
               ''https://controller.example/api/v2/config/''"
    by (simp add: run_defs)
  have on: "include_metadata example_options"
    by (simp add: example_options_def)
  have enabled: "inv_vars G ''all'' ''controller_metadata'' =
        Some (JDict [(''license_type'', JStr ''enterprise''), (''version'', JStr ''4.5.0''),
                     (''ansible_version'', JStr ''unknown'')])"
    using metadata_variable [OF run] on unfolding url
    by (auto simp: example_environment_def metadata_as_specified_def)
  obtain B where B: "build None None None example_inventory empty_inventory = Inr B"
    by (simp add: build_def example_defs)
  have off: "parse example_environment (example_options\<lparr>include_metadata := False\<rparr>)
               empty_inventory =
     (Inr B, [''https://controller.example/api/v2/inventories/?name=prod%20east'',
              ''https://controller.example/api/v2/inventories/7/script/?hostvars=1&controllervars=1&all=1''])"
    by (simp add: run_defs B)
  have unset: "inv_vars B ''all'' ''controller_metadata'' = None"
    using B by (auto simp: build_def example_defs Let_def set_variable_def)
  have "length [''https://controller.example/api/v2/inventories/?name=prod%20east'',
              ''https://controller.example/api/v2/inventories/7/script/?hostvars=1&controllervars=1&all=1'']
          = 2"
    using metadata_variable [OF off] by simp
  with run enabled off B unset show ?thesis by blast
qed

end
